theory Spec2Isabelle
  imports Main "HOL-Library.Multiset"
begin

section \<open>The renegotiation-disabled test script\<close>

text \<open>
  A shallow embedding of \<^verbatim>\<open>scripts/test-renegotiation-disabled.py\<close>: the five
  conversation graphs that \<^verbatim>\<open>main\<close> builds, the sampling and ordering of the
  tests, the loop that runs them and the exit status.
\<close>

subsection \<open>Constants of the protocol library\<close>

text \<open>
  The names the script takes from \<^verbatim>\<open>tlslite.constants\<close>. Only the names the
  script mentions are listed; their numeric values play no role in the script.
\<close>

datatype cipher_suite = TLS_RSA_WITH_AES_128_CBC_SHA | TLS_EMPTY_RENEGOTIATION_INFO_SCSV

datatype alert_level = warning | fatal

datatype alert_description = close_notify | no_renegotiation

datatype extension_type = renegotiation_info

text \<open>
  An extensions dictionary maps an extension type to an extension object or to
  \<^verbatim>\<open>None\<close>; the script only ever writes \<^verbatim>\<open>None\<close>. The payload of an
  extension object is kept as raw bytes.
\<close>

type_synonym extensions = "(extension_type \<times> string option) list"

subsection \<open>Graph nodes\<close>

text \<open>
  One constructor for each node class the script instantiates, with the arguments the
  script passes. An argument the script leaves out is Python's default \<^verbatim>\<open>None\<close>.
  \<^verbatim>\<open>ClientHelloGenerator\<close> takes the cipher list, \<^verbatim>\<open>session_id\<close> and
  \<^verbatim>\<open>extensions\<close>; \<^verbatim>\<open>ExpectAlert\<close> takes the level and the description.
\<close>

datatype node_kind =
    Connect string int
  | ClientHelloGenerator "cipher_suite list" "string option" "extensions option"
  | ExpectServerHello "extensions option"
  | ExpectCertificate
  | ExpectServerHelloDone
  | ClientKeyExchangeGenerator
  | ChangeCipherSpecGenerator
  | FinishedGenerator
  | ExpectChangeCipherSpec
  | ExpectFinished
  | ApplicationDataGenerator string
  | ExpectApplicationData
  | AlertGenerator alert_level alert_description
  | ExpectAlert "alert_level option" "alert_description option"
  | ExpectClose
  | ResetHandshakeHashes

text \<open>
  Nodes are mutable objects: \<^verbatim>\<open>add_child\<close> and the assignment to
  \<^verbatim>\<open>next_sibling\<close> change a node that other nodes already point to. The objects of
  one conversation live in a store, a list indexed by reference; a reference is the
  position of the object, and a new object goes to the end of the store.
\<close>

record tree_node =
  kind :: node_kind
  children :: "nat list"
  next_sibling :: "nat option"

record conversation =
  nodes :: "tree_node list"
  root :: nat

text \<open>Calling a node class: a new object with no child and no sibling.\<close>

definition new_node :: "node_kind \<Rightarrow> tree_node list \<Rightarrow> nat \<times> tree_node list" where
  "new_node k h = (length h, h @ [\<lparr>kind = k, children = [], next_sibling = None\<rparr>])"

text \<open>
  Modelled from the spec: the method \<^verbatim>\<open>add_child\<close> of the node class, which is
  defined in \<^verbatim>\<open>tlsfuzzer\<close> and not in the script. It appends the node as a new child
  and returns it, so that calls can be chained.
\<close>

definition add_child :: "nat \<Rightarrow> nat \<Rightarrow> tree_node list \<Rightarrow> nat \<times> tree_node list" where
  "add_child node c h = (c, h[node := (h ! node)\<lparr>children := children (h ! node) @ [c]\<rparr>])"

text \<open>The assignment \<^verbatim>\<open>node.next_sibling = n\<close>.\<close>

definition set_next_sibling :: "nat \<Rightarrow> nat \<Rightarrow> tree_node list \<Rightarrow> tree_node list" where
  "set_next_sibling node n h = h[node := (h ! node)\<lparr>next_sibling := Some n\<rparr>]"

text \<open>The statement \<^verbatim>\<open>node = node.add_child(K(...))\<close>.\<close>

definition add_new :: "nat \<times> tree_node list \<Rightarrow> node_kind \<Rightarrow> nat \<times> tree_node list" where
  "add_new st k = (case st of (node, h) \<Rightarrow> (case new_node k h of (c, h1) \<Rightarrow> add_child node c h1))"

text \<open>A run of consecutive statements \<^verbatim>\<open>node = node.add_child(K(...))\<close>.\<close>

definition add_all :: "nat \<times> tree_node list \<Rightarrow> node_kind list \<Rightarrow> nat \<times> tree_node list" where
  "add_all st ks = foldl add_new st ks"

text \<open>The statement \<^verbatim>\<open>node.next_sibling = K(...)\<close>.\<close>

definition sibling_new :: "nat \<times> tree_node list \<Rightarrow> node_kind \<Rightarrow> nat \<times> tree_node list" where
  "sibling_new st k =
     (case st of (node, h) \<Rightarrow> (case new_node k h of (n, h1) \<Rightarrow> (node, set_next_sibling node n h1)))"

text \<open>\<^verbatim>\<open>conversation = Connect(host, port); node = conversation\<close>.\<close>

definition connect :: "string \<Rightarrow> int \<Rightarrow> nat \<times> tree_node list" where
  "connect h p = new_node (Connect h p) []"

definition finish :: "nat \<times> tree_node list \<Rightarrow> conversation" where
  "finish st = \<lparr>nodes = snd st, root = 0\<rparr>"

subsection \<open>The five conversations\<close>

definition CRLF :: string where
  "CRLF = [CHR 0x0D, CHR 0x0A]"

definition get_request :: string where
  "get_request = ''GET /?Renegotiation_Test=tlsfuzzer HTTP/1.0'' @ CRLF"

text \<open>Lines 79 to 99.\<close>

definition sanity_conversation :: "string \<Rightarrow> int \<Rightarrow> conversation" where
  "sanity_conversation h p =
     (let ciphers = [TLS_RSA_WITH_AES_128_CBC_SHA, TLS_EMPTY_RENEGOTIATION_INFO_SCSV];
          st = add_all (connect h p)
            [ClientHelloGenerator ciphers None None,
             ExpectServerHello None,
             ExpectCertificate,
             ExpectServerHelloDone,
             ClientKeyExchangeGenerator,
             ChangeCipherSpecGenerator,
             FinishedGenerator,
             ExpectChangeCipherSpec,
             ExpectFinished,
             ApplicationDataGenerator (get_request @ CRLF),
             ExpectApplicationData,
             AlertGenerator warning close_notify,
             ExpectAlert None None]
      in finish (sibling_new st ExpectClose))"

text \<open>
  The end of each renegotiation conversation, after the expected
  \<^verbatim>\<open>no_renegotiation\<close> alert: the branch on \<^verbatim>\<open>no_renego_close\<close>. The
  parameter \<open>rest\<close> is what the \<^verbatim>\<open>else\<close> branch sends before it expects the
  reply: the whole request, or the line that completes it.
\<close>

definition renego_tail ::
  "bool \<Rightarrow> node_kind list \<Rightarrow> nat \<times> tree_node list \<Rightarrow> nat \<times> tree_node list" where
  "renego_tail no_renego_close rest st =
     (if no_renego_close then
        add_all st [ExpectAlert (Some warning) (Some close_notify), ExpectClose]
      else
        sibling_new
          (add_all st (rest @
             [ExpectApplicationData,
              AlertGenerator warning close_notify,
              ExpectAlert None None]))
          ExpectClose)"

text \<open>Lines 102 to 140.\<close>

definition secure_get_after :: "string \<Rightarrow> int \<Rightarrow> bool \<Rightarrow> conversation" where
  "secure_get_after h p no_renego_close =
     (let ciphers = [TLS_RSA_WITH_AES_128_CBC_SHA];
          ext = [(renegotiation_info, None)];
          st = add_all (connect h p)
            [ClientHelloGenerator ciphers None (Some ext),
             ExpectServerHello (Some ext),
             ExpectCertificate,
             ExpectServerHelloDone,
             ClientKeyExchangeGenerator,
             ChangeCipherSpecGenerator,
             FinishedGenerator,
             ExpectChangeCipherSpec,
             ExpectFinished,
             ResetHandshakeHashes,
             ClientHelloGenerator ciphers (Some []) (Some ext),
             ExpectAlert (Some warning) (Some no_renegotiation)]
      in finish (renego_tail no_renego_close
           [ApplicationDataGenerator get_request, ApplicationDataGenerator CRLF] st))"

text \<open>Lines 143 to 182.\<close>

definition secure_incomplete_get :: "string \<Rightarrow> int \<Rightarrow> bool \<Rightarrow> conversation" where
  "secure_incomplete_get h p no_renego_close =
     (let ciphers = [TLS_RSA_WITH_AES_128_CBC_SHA];
          ext = [(renegotiation_info, None)];
          st = add_all (connect h p)
            [ClientHelloGenerator ciphers None (Some ext),
             ExpectServerHello (Some ext),
             ExpectCertificate,
             ExpectServerHelloDone,
             ClientKeyExchangeGenerator,
             ChangeCipherSpecGenerator,
             FinishedGenerator,
             ExpectChangeCipherSpec,
             ExpectFinished,
             ApplicationDataGenerator get_request,
             ResetHandshakeHashes,
             ClientHelloGenerator ciphers (Some []) (Some ext),
             ExpectAlert (Some warning) (Some no_renegotiation)]
      in finish (renego_tail no_renego_close [ApplicationDataGenerator CRLF] st))"

text \<open>Lines 185 to 219.\<close>

definition insecure_get_after :: "string \<Rightarrow> int \<Rightarrow> bool \<Rightarrow> conversation" where
  "insecure_get_after h p no_renego_close =
     (let ciphers = [TLS_RSA_WITH_AES_128_CBC_SHA];
          st = add_all (connect h p)
            [ClientHelloGenerator ciphers None None,
             ExpectServerHello None,
             ExpectCertificate,
             ExpectServerHelloDone,
             ClientKeyExchangeGenerator,
             ChangeCipherSpecGenerator,
             FinishedGenerator,
             ExpectChangeCipherSpec,
             ExpectFinished,
             ResetHandshakeHashes,
             ClientHelloGenerator ciphers (Some []) None,
             ExpectAlert (Some warning) (Some no_renegotiation)]
      in finish (renego_tail no_renego_close
           [ApplicationDataGenerator get_request, ApplicationDataGenerator CRLF] st))"

text \<open>Lines 222 to 257.\<close>

definition insecure_incomplete_get :: "string \<Rightarrow> int \<Rightarrow> bool \<Rightarrow> conversation" where
  "insecure_incomplete_get h p no_renego_close =
     (let ciphers = [TLS_RSA_WITH_AES_128_CBC_SHA];
          st = add_all (connect h p)
            [ClientHelloGenerator ciphers None None,
             ExpectServerHello None,
             ExpectCertificate,
             ExpectServerHelloDone,
             ClientKeyExchangeGenerator,
             ChangeCipherSpecGenerator,
             FinishedGenerator,
             ExpectChangeCipherSpec,
             ExpectFinished,
             ApplicationDataGenerator get_request,
             ResetHandshakeHashes,
             ClientHelloGenerator ciphers (Some []) None,
             ExpectAlert (Some warning) (Some no_renegotiation)]
      in finish (renego_tail no_renego_close [ApplicationDataGenerator CRLF] st))"

text \<open>
  The dictionary \<^verbatim>\<open>conversations\<close>, as the list of its items in the order of
  insertion. An assignment to a key that is present replaces its value in place.
\<close>

fun dict_set :: "('k \<times> 'v) list \<Rightarrow> 'k \<Rightarrow> 'v \<Rightarrow> ('k \<times> 'v) list" where
  "dict_set [] k v = [(k, v)]"
| "dict_set ((k', v') # d) k v = (if k' = k then (k, v) # d else (k', v') # dict_set d k v)"

definition build_conversations :: "string \<Rightarrow> int \<Rightarrow> bool \<Rightarrow> (string \<times> conversation) list" where
  "build_conversations h p no_renego_close =
     (let c0 = [];
          c1 = dict_set c0 ''sanity'' (sanity_conversation h p);
          c2 = dict_set c1 ''try secure renegotiation with GET after 2nd CH''
                 (secure_get_after h p no_renego_close);
          c3 = dict_set c2 ''try secure renegotiation with incomplete GET''
                 (secure_incomplete_get h p no_renego_close);
          c4 = dict_set c3 ''try insecure (legacy) renegotiation with GET after 2nd CH''
                 (insecure_get_after h p no_renego_close);
          c5 = dict_set c4 ''try insecure (legacy) renegotiation with incomplete GET''
                 (insecure_incomplete_get h p no_renego_close)
      in c5)"

subsection \<open>Reading a graph\<close>

text \<open>
  The kinds of the nodes met when following the first child from a node, the node
  itself first. The store of a conversation is finite, so its length bounds the walk.
\<close>

fun walk :: "tree_node list \<Rightarrow> nat \<Rightarrow> nat \<Rightarrow> nat list" where
  "walk h i 0 = []"
| "walk h i (Suc fuel) =
     (if i < length h then
        i # (case children (h ! i) of [] \<Rightarrow> [] | c # cs \<Rightarrow> walk h c fuel)
      else [])"

definition chain_refs :: "conversation \<Rightarrow> nat list" where
  "chain_refs c = walk (nodes c) (root c) (length (nodes c))"

definition node_sequence :: "conversation \<Rightarrow> node_kind list" where
  "node_sequence c = map (\<lambda>i. kind (nodes c ! i)) (chain_refs c)"

fun is_client_hello :: "node_kind \<Rightarrow> bool" where
  "is_client_hello (ClientHelloGenerator cs sid ext) = True"
| "is_client_hello k = False"

text \<open>The positions, in a node sequence, of the ClientHello generators.\<close>

definition client_hello_positions :: "node_kind list \<Rightarrow> nat list" where
  "client_hello_positions ks = filter (\<lambda>i. is_client_hello (ks ! i)) [0..<length ks]"

text \<open>
  The node that follows the second ClientHello generator of a conversation, and the
  node that precedes it. The preceding node is reported only when the ClientHello is
  its one child, so that nothing stands between the two.
\<close>

definition node_after_second_hello :: "conversation \<Rightarrow> node_kind option" where
  "node_after_second_hello c =
     (let ks = node_sequence c; ps = client_hello_positions ks in
      if 1 < length ps \<and> Suc (ps ! 1) < length ks then Some (ks ! Suc (ps ! 1)) else None)"

definition node_before_second_hello :: "conversation \<Rightarrow> node_kind option" where
  "node_before_second_hello c =
     (let rs = chain_refs c; ks = node_sequence c; ps = client_hello_positions ks in
      if 1 < length ps \<and> 0 < ps ! 1 \<and>
         children (nodes c ! (rs ! (ps ! 1 - 1))) = [rs ! (ps ! 1)]
      then Some (ks ! (ps ! 1 - 1)) else None)"

subsection \<open>Settings, errors and the outcome of a run\<close>

text \<open>
  The variables \<^verbatim>\<open>main\<close> holds after its option loop (lines 47 to 70), and the
  positional arguments \<^verbatim>\<open>args\<close>. \<^verbatim>\<open>num_limit\<close> is \<^verbatim>\<open>None\<close> unless the
  option \<^verbatim>\<open>-n\<close> was given. A call that the option loop itself ends
  (\<^verbatim>\<open>--help\<close>, an option that cannot be read) builds no conversation and runs
  none; the embedding starts where the loop has gone through.
\<close>

record settings =
  host :: string
  port :: int
  num_limit :: "int option"
  run_exclude :: "string set"
  no_renego_close :: bool
  args :: "string list"

text \<open>Lines 72 to 75: \<^verbatim>\<open>run_only\<close> is the set of the arguments, or \<^verbatim>\<open>None\<close>.\<close>

definition run_only_of :: "string list \<Rightarrow> string set option" where
  "run_only_of as = (if as \<noteq> [] then Some (set as) else None)"

text \<open>
  An exception that leaves \<^verbatim>\<open>main\<close>: the \<^verbatim>\<open>ValueError\<close> of
  \<^verbatim>\<open>random.sample\<close>, the \<^verbatim>\<open>KeyError\<close> of a dictionary lookup, or an exception
  of \<^verbatim>\<open>runner.run()\<close> that the handler \<^verbatim>\<open>except Exception\<close> does not catch.
\<close>

datatype error = ValueError | KeyError | Uncaught string

text \<open>
  What one call of \<^verbatim>\<open>runner.run()\<close> does: it returns, it raises an exception
  derived from \<^verbatim>\<open>Exception\<close> (kept with the text that
  \<^verbatim>\<open>traceback.format_exc()\<close> gives for it), or it raises one that is derived from
  \<^verbatim>\<open>BaseException\<close> only, such as \<^verbatim>\<open>KeyboardInterrupt\<close> or
  \<^verbatim>\<open>SystemExit\<close>. The runner talks to a server, so its outcome depends on a world
  \<open>'w\<close> that it also changes. The call \<^verbatim>\<open>Runner(c_test)\<close> of line 279, which
  stands before the \<^verbatim>\<open>try\<close>, is taken to return: the outcome is that of
  \<^verbatim>\<open>runner.run()\<close>.
\<close>

datatype run_result = Returned | Raised string | Raised_base string

type_synonym 'w runner = "'w \<Rightarrow> conversation \<Rightarrow> run_result \<times> 'w"

subsection \<open>Sampling and ordering\<close>

text \<open>
  \<^verbatim>\<open>random.sample(population, k)\<close> of the standard library. The random source
  is a parameter: \<open>rnd c\<close> is the \<open>c\<close>-th number it delivers, and a draw below
  \<open>n\<close> reduces it to the range asked for.
\<close>

definition randbelow :: "(nat \<Rightarrow> nat) \<Rightarrow> nat \<Rightarrow> nat \<Rightarrow> nat" where
  "randbelow rnd c n = rnd c mod n"

text \<open>
  The first branch, for a population of at most \<open>setsize\<close> elements: \<open>k\<close> draws from
  a pool that starts as a copy of the population; the drawn position is refilled with
  the last live element of the pool. The draw of round \<open>i\<close> is the \<open>i\<close>-th draw.
\<close>

fun sample_loop :: "(nat \<Rightarrow> nat) \<Rightarrow> nat \<Rightarrow> nat \<Rightarrow> 'a list \<Rightarrow> nat \<Rightarrow> 'a list" where
  "sample_loop rnd n i pool 0 = []"
| "sample_loop rnd n i pool (Suc m) =
     (let j = randbelow rnd i (n - i)
      in pool ! j # sample_loop rnd n (Suc i) (pool[j := pool ! (n - i - 1)]) m)"

text \<open>
  The second branch, for a larger population: each round draws a position below \<open>n\<close>
  and draws again while the position has been selected before. The inner loop need not
  end, so it is a partial function: \<open>None\<close> is the loop that never leaves. It returns
  the position and the number of draws made so far.
\<close>

partial_function (option) redraw ::
  "(nat \<Rightarrow> nat) \<Rightarrow> nat \<Rightarrow> nat \<Rightarrow> nat set \<Rightarrow> (nat \<times> nat) option" where
  "redraw rnd c n selected =
     (if randbelow rnd c n \<in> selected then redraw rnd (Suc c) n selected
      else Some (randbelow rnd c n, Suc c))"

declare redraw.simps [code]

fun sample_set ::
  "(nat \<Rightarrow> nat) \<Rightarrow> nat \<Rightarrow> nat \<Rightarrow> 'a list \<Rightarrow> nat set \<Rightarrow> nat \<Rightarrow> 'a list option" where
  "sample_set rnd c n population selected 0 = Some []"
| "sample_set rnd c n population selected (Suc m) =
     (case redraw rnd c n selected of
        None \<Rightarrow> None
      | Some (j, c') \<Rightarrow>
          (case sample_set rnd c' n population (insert j selected) m of
             None \<Rightarrow> None
           | Some result \<Rightarrow> Some (population ! j # result)))"

text \<open>
  The size up to which the pool is used: 21, and for \<open>k > 5\<close> more by
  \<^verbatim>\<open>4 ** _ceil(_log(k * 3, 4))\<close>. Python computes the logarithm in floating
  point; the model takes its exact value, the least \<open>e\<close> with \<open>3 k \<le> 4 ^ e\<close>.
\<close>

function ceil_log4 :: "nat \<Rightarrow> nat" where
  "ceil_log4 m = (if m \<le> 1 then 0 else Suc (ceil_log4 ((m + 3) div 4)))"
  by pat_completeness auto
termination
  by (relation "measure id") auto

declare ceil_log4.simps [simp del]

definition setsize :: "nat \<Rightarrow> nat" where
  "setsize k = (if k > 5 then 21 + 4 ^ ceil_log4 (k * 3) else 21)"

text \<open>
  The whole function: a \<^verbatim>\<open>ValueError\<close> unless \<open>0 \<le> k \<le> n\<close>, then one of the
  two branches. The outer \<open>None\<close> is a call that does not return.
\<close>

definition sample :: "(nat \<Rightarrow> nat) \<Rightarrow> 'a list \<Rightarrow> int \<Rightarrow> (error + 'a list) option" where
  "sample rnd population k =
     (let n = length population in
      if \<not> (0 \<le> k \<and> k \<le> int n) then Some (Inl ValueError)
      else if n \<le> setsize (nat k) then Some (Inr (sample_loop rnd n 0 population (nat k)))
      else map_option Inr (sample_set rnd 0 n population {} (nat k)))"

text \<open>Lines 264 and 265: a limit that is \<^verbatim>\<open>None\<close> or \<open>0\<close> is false in Python.\<close>

definition effective_limit :: "(string \<times> conversation) list \<Rightarrow> int option \<Rightarrow> int" where
  "effective_limit conversations limit =
     (case limit of
        None \<Rightarrow> int (length conversations)
      | Some k \<Rightarrow> if k = 0 then int (length conversations) else k)"

text \<open>Line 270.\<close>

definition regular_tests :: "(string \<times> conversation) list \<Rightarrow> (string \<times> conversation) list" where
  "regular_tests conversations = filter (\<lambda>(k, v). k \<noteq> ''sanity'') conversations"

text \<open>Line 271.\<close>

definition sampled_tests ::
  "(string \<times> conversation) list \<Rightarrow> int option \<Rightarrow> (nat \<Rightarrow> nat) \<Rightarrow>
   (error + (string \<times> conversation) list) option"
where
  "sampled_tests conversations limit rnd =
     (let regular = regular_tests conversations
      in sample rnd regular (min (effective_limit conversations limit) (int (length regular))))"

text \<open>Lines 269 to 272; the lookup of \<^verbatim>\<open>'sanity'\<close> comes first, as in the script.\<close>

definition ordered_tests ::
  "(string \<times> conversation) list \<Rightarrow> int option \<Rightarrow> (nat \<Rightarrow> nat) \<Rightarrow>
   (error + (string \<times> conversation) list) option"
where
  "ordered_tests conversations limit rnd =
     (case map_of conversations ''sanity'' of
        None \<Rightarrow> Some (Inl KeyError)
      | Some sanity \<Rightarrow>
          (let sanity_tests = [(''sanity'', sanity)] in
           case sampled_tests conversations limit rnd of
             None \<Rightarrow> None
           | Some (Inl e) \<Rightarrow> Some (Inl e)
           | Some (Inr sampled) \<Rightarrow> Some (Inr (sanity_tests @ sampled @ sanity_tests))))"

subsection \<open>The loop over the tests\<close>

record run_state =
  good :: int
  bad :: int
  failed :: "string list"
  stdout :: "string list"

text \<open>Lines 261 to 263; nothing has been printed yet.\<close>

definition initial_state :: run_state where
  "initial_state = \<lparr>good = 0, bad = 0, failed = [], stdout = []\<rparr>"

text \<open>
  The condition of line 275,
  \<^verbatim>\<open>run_only and c_name not in run_only or c_name in run_exclude\<close>.
\<close>

definition skipped :: "string set option \<Rightarrow> string set \<Rightarrow> string \<Rightarrow> bool" where
  "skipped run_only excl c_name =
     ((case run_only of None \<Rightarrow> False | Some s \<Rightarrow> s \<noteq> {} \<and> c_name \<notin> s) \<or> c_name \<in> excl)"

text \<open>
  Lines 274 to 294. Each \<^verbatim>\<open>print\<close> adds its argument to \<open>stdout\<close>. An exception
  that \<^verbatim>\<open>except Exception\<close> does not catch leaves the loop and \<^verbatim>\<open>main\<close>.
\<close>

fun run_tests ::
  "'w runner \<Rightarrow> string set option \<Rightarrow> string set \<Rightarrow> (string \<times> conversation) list \<Rightarrow>
   'w \<Rightarrow> run_state \<Rightarrow> error + ('w \<times> run_state)"
where
  "run_tests run run_only excl [] w s = Inr (w, s)"
| "run_tests run run_only excl ((c_name, c_test) # tests) w s =
     (if skipped run_only excl c_name then run_tests run run_only excl tests w s
      else
        let s1 = s\<lparr>stdout := stdout s @ [c_name @ '' ...'']\<rparr> in
        case run w c_test of
          (Returned, w') \<Rightarrow>
            run_tests run run_only excl tests w'
              (s1\<lparr>good := good s1 + 1, stdout := stdout s1 @ [''OK'' @ [CHR 0x0A]]\<rparr>)
        | (Raised tb, w') \<Rightarrow>
            run_tests run run_only excl tests w'
              (s1\<lparr>bad := bad s1 + 1, failed := failed s1 @ [c_name],
                  stdout := stdout s1 @ [''Error while processing'', tb]\<rparr>)
        | (Raised_base e, w') \<Rightarrow> Inl (Uncaught e))"

text \<open>
  Lines 305 and 306: \<^verbatim>\<open>sys.exit(1)\<close> when a test failed; otherwise \<^verbatim>\<open>main\<close>
  returns and the status of the process is 0.
\<close>

definition exit_status :: "run_state \<Rightarrow> int" where
  "exit_status s = (if bad s > 0 then 1 else 0)"

text \<open>
  The decimal digits of a number, for \<^verbatim>\<open>"{0}".format(n)\<close> with an integer.
\<close>

function digits :: "nat \<Rightarrow> string" where
  "digits n =
     (if n < 10 then [''0123456789'' ! n] else digits (n div 10) @ [''0123456789'' ! (n mod 10)])"
  by pat_completeness auto
termination
  by (relation "measure id") auto

declare digits.simps [simp del]

definition str_int :: "int \<Rightarrow> string" where
  "str_int i = (if i < 0 then ''-'' @ digits (nat (- i)) else digits (nat i))"

text \<open>
  Lines 296 to 303, the summary. Its last line lists the names in \<^verbatim>\<open>failed\<close>,
  sorted with \<^verbatim>\<open>natural_sort_keys\<close> of \<^verbatim>\<open>tlsfuzzer.utils.lists\<close>, which
  is not part of the script: the text of that line is the parameter \<open>report\<close>, a
  function of \<^verbatim>\<open>failed\<close>. The summary changes no variable of \<^verbatim>\<open>main\<close>.
\<close>

definition summary :: "(string list \<Rightarrow> string) \<Rightarrow> run_state \<Rightarrow> run_state" where
  "summary report s =
     s\<lparr>stdout := stdout s @
        [''Verify that the server disabled renegotiation (both legacy and secure)'',
         ''version: '' @ str_int 1 @ [CHR 0x0A],
         ''Test end'',
         ''successful: '' @ str_int (good s),
         ''failed: '' @ str_int (bad s),
         report (failed s)]\<rparr>"

text \<open>
  \<^verbatim>\<open>main\<close>, from line 77 on. \<open>None\<close> is a run that does not return,
  \<open>Inl\<close> an exception that leaves \<^verbatim>\<open>main\<close>, and \<open>Inr\<close> the exit status with the
  state at the exit.
\<close>

definition main ::
  "settings \<Rightarrow> (nat \<Rightarrow> nat) \<Rightarrow> 'w runner \<Rightarrow> (string list \<Rightarrow> string) \<Rightarrow> 'w \<Rightarrow>
   (error + (int \<times> run_state)) option" where
  "main cfg rnd run report w =
     (let conversations = build_conversations (host cfg) (port cfg) (no_renego_close cfg);
          run_only = run_only_of (args cfg)
      in case ordered_tests conversations (num_limit cfg) rnd of
           None \<Rightarrow> None
         | Some (Inl e) \<Rightarrow> Some (Inl e)
         | Some (Inr tests) \<Rightarrow>
             (case run_tests run run_only (run_exclude cfg) tests w initial_state of
                Inl e \<Rightarrow> Some (Inl e)
              | Inr (w', s) \<Rightarrow> Some (Inr (exit_status s, summary report s))))"

subsection \<open>The calls of the runner\<close>

text \<open>The tests of a list that the condition of line 275 lets through.\<close>

definition executed ::
  "string set option \<Rightarrow> string set \<Rightarrow> (string \<times> conversation) list \<Rightarrow> (string \<times> conversation) list"
where
  "executed run_only excl tests = filter (\<lambda>(c_name, c_test). \<not> skipped run_only excl c_name) tests"

text \<open>
  The calls \<^verbatim>\<open>Runner(c_test).run()\<close> made for a list of tests that are run one
  after the other from the world \<open>w\<close>, each with its outcome. An exception that is not
  caught ends the list.
\<close>

fun attempts :: "'w runner \<Rightarrow> 'w \<Rightarrow> (string \<times> conversation) list \<Rightarrow> (string \<times> run_result) list" where
  "attempts run w [] = []"
| "attempts run w ((c_name, c_test) # tests) =
     (case run w c_test of
        (Raised_base e, w') \<Rightarrow> [(c_name, Raised_base e)]
      | (r, w') \<Rightarrow> (c_name, r) # attempts run w' tests)"

text \<open>The calls of the runner in a run of \<^verbatim>\<open>main\<close>.\<close>

definition main_attempts ::
  "settings \<Rightarrow> (nat \<Rightarrow> nat) \<Rightarrow> 'w runner \<Rightarrow> 'w \<Rightarrow> (string \<times> run_result) list" where
  "main_attempts cfg rnd run w =
     (case ordered_tests (build_conversations (host cfg) (port cfg) (no_renego_close cfg))
             (num_limit cfg) rnd of
        Some (Inr tests) \<Rightarrow>
          attempts run w (executed (run_only_of (args cfg)) (run_exclude cfg) tests)
      | _ \<Rightarrow> [])"

fun is_returned :: "run_result \<Rightarrow> bool" where
  "is_returned Returned = True"
| "is_returned r = False"

fun is_raised :: "run_result \<Rightarrow> bool" where
  "is_raised (Raised tb) = True"
| "is_raised r = False"

fun is_uncaught :: "run_result \<Rightarrow> bool" where
  "is_uncaught (Raised_base e) = True"
| "is_uncaught r = False"

text \<open>
  The alternative to the last node of the chain: the kind of the node that the last
  node names as its \<^verbatim>\<open>next_sibling\<close>.
\<close>

definition alternative_of_last :: "conversation \<Rightarrow> node_kind option" where
  "alternative_of_last c =
     (case chain_refs c of
        [] \<Rightarrow> None
      | r # rs \<Rightarrow> map_option (\<lambda>n. kind (nodes c ! n)) (next_sibling (nodes c ! last (r # rs))))"

text \<open>The nodes of a conversation that have a \<^verbatim>\<open>next_sibling\<close>.\<close>

definition with_sibling :: "conversation \<Rightarrow> nat list" where
  "with_sibling c = filter (\<lambda>i. next_sibling (nodes c ! i) \<noteq> None) [0..<length (nodes c)]"

text \<open>Lines 47 to 51 and 75: the settings of a call with no option and no argument.\<close>

definition default_settings :: settings where
  "default_settings =
     \<lparr>host = ''localhost'', port = 4433, num_limit = None, run_exclude = {},
      no_renego_close = False, args = []\<rparr>"

section \<open>The conversation graphs\<close>

lemmas build_defs = add_all_def add_new_def new_node_def add_child_def
  set_next_sibling_def sibling_new_def connect_def finish_def renego_tail_def Let_def

lemmas read_defs = node_sequence_def chain_refs_def client_hello_positions_def
  node_after_second_hello_def node_before_second_hello_def alternative_of_last_def
  with_sibling_def

lemma build_conversations_items:
  "build_conversations h p b =
     [(''sanity'', sanity_conversation h p),
      (''try secure renegotiation with GET after 2nd CH'', secure_get_after h p b),
      (''try secure renegotiation with incomplete GET'', secure_incomplete_get h p b),
      (''try insecure (legacy) renegotiation with GET after 2nd CH'', insecure_get_after h p b),
      (''try insecure (legacy) renegotiation with incomplete GET'',
       insecure_incomplete_get h p b)]"
  by (simp add: build_conversations_def)

lemma regular_tests_build:
  "regular_tests (build_conversations h p b) =
     [(''try secure renegotiation with GET after 2nd CH'', secure_get_after h p b),
      (''try secure renegotiation with incomplete GET'', secure_incomplete_get h p b),
      (''try insecure (legacy) renegotiation with GET after 2nd CH'', insecure_get_after h p b),
      (''try insecure (legacy) renegotiation with incomplete GET'',
       insecure_incomplete_get h p b)]"
  by (simp add: regular_tests_def build_conversations_items)

subsection \<open>The sanity conversation\<close>

lemma sanity_sequence:
  "node_sequence (sanity_conversation h p) =
     [Connect h p,
      ClientHelloGenerator [TLS_RSA_WITH_AES_128_CBC_SHA, TLS_EMPTY_RENEGOTIATION_INFO_SCSV]
        None None,
      ExpectServerHello None,
      ExpectCertificate,
      ExpectServerHelloDone,
      ClientKeyExchangeGenerator,
      ChangeCipherSpecGenerator,
      FinishedGenerator,
      ExpectChangeCipherSpec,
      ExpectFinished,
      ApplicationDataGenerator (get_request @ CRLF),
      ExpectApplicationData,
      AlertGenerator warning close_notify,
      ExpectAlert None None]"
  by (simp add: sanity_conversation_def build_defs read_defs eval_nat_numeral)

lemma sanity_alternative:
  "alternative_of_last (sanity_conversation h p) = Some ExpectClose"
  by (simp add: sanity_conversation_def build_defs read_defs eval_nat_numeral)

lemma sanity_size:
  "length (nodes (sanity_conversation h p)) = 15"
  by (simp add: sanity_conversation_def build_defs)

lemma sanity_siblings:
  "with_sibling (sanity_conversation h p) = [13]"
  by (simp add: sanity_conversation_def build_defs read_defs)

lemma sanity_children:
  "map children (nodes (sanity_conversation h p)) =
     [[1], [2], [3], [4], [5], [6], [7], [8], [9], [10], [11], [12], [13], [], []]"
  by (simp add: sanity_conversation_def build_defs)

lemma sanity_next_siblings:
  "map next_sibling (nodes (sanity_conversation h p)) =
     [None, None, None, None, None, None, None, None, None, None, None, None, None,
      Some 14, None]"
  by (simp add: sanity_conversation_def build_defs)

lemma sanity_root:
  "root (sanity_conversation h p) = 0"
  by (simp add: sanity_conversation_def build_defs)

lemma sanity_close_kind:
  "kind (nodes (sanity_conversation h p) ! 14) = ExpectClose"
  by (simp add: sanity_conversation_def build_defs)

text \<open>
  C3, as the claim states it: the ClientHello of the sanity conversation would carry the
  one cipher \<^verbatim>\<open>TLS_RSA_WITH_AES_128_CBC_SHA\<close>, the expectation after the
  \<^verbatim>\<open>close_notify\<close> generator would match a \<^verbatim>\<open>close_notify\<close> alert only, and
  the expectation of the close would end the chain. In the script the ClientHello
  carries two ciphers, the alert expectation has no level and no description, and
  \<^verbatim>\<open>ExpectClose\<close> is not a node of the chain.
\<close>

theorem sanity_claimed_sequence_counterexample:
  "node_sequence (sanity_conversation ''localhost'' 4433) ! 1 =
     ClientHelloGenerator [TLS_RSA_WITH_AES_128_CBC_SHA, TLS_EMPTY_RENEGOTIATION_INFO_SCSV]
       None None
   \<and> [TLS_RSA_WITH_AES_128_CBC_SHA, TLS_EMPTY_RENEGOTIATION_INFO_SCSV]
       \<noteq> [TLS_RSA_WITH_AES_128_CBC_SHA]
   \<and> last (node_sequence (sanity_conversation ''localhost'' 4433)) = ExpectAlert None None
   \<and> ExpectAlert None None \<noteq> ExpectAlert (Some warning) (Some close_notify)
   \<and> ExpectClose \<notin> set (node_sequence (sanity_conversation ''localhost'' 4433))"
  by (simp add: sanity_sequence)

text \<open>
  C3, amended: the sanity conversation is the connection node followed by one chain of
  single children: a ClientHello generator with the ciphers
  \<^verbatim>\<open>TLS_RSA_WITH_AES_128_CBC_SHA\<close> and \<^verbatim>\<open>TLS_EMPTY_RENEGOTIATION_INFO_SCSV\<close>;
  expectations of ServerHello, Certificate and ServerHelloDone; generators of
  ClientKeyExchange, ChangeCipherSpec and Finished; expectations of ChangeCipherSpec and
  Finished; one ApplicationData generator with the GET request; one ApplicationData
  expectation; a \<^verbatim>\<open>close_notify\<close> alert generator; and an expectation of any
  alert, which ends the chain. The expectation of the close is the
  \<^verbatim>\<open>next_sibling\<close> of that alert expectation, its alternative, and the only
  sibling in the graph; the graph has no other node. The references say the same: the
  nodes 0 to 12 have the next node as their one child, the alert expectation 13 and the
  close expectation 14 have no child, and 14 is the child of no node and the sibling of
  13 alone.
\<close>

theorem sanity_conversation_shape:
  "node_sequence (sanity_conversation h p) =
     [Connect h p,
      ClientHelloGenerator [TLS_RSA_WITH_AES_128_CBC_SHA, TLS_EMPTY_RENEGOTIATION_INFO_SCSV]
        None None,
      ExpectServerHello None,
      ExpectCertificate,
      ExpectServerHelloDone,
      ClientKeyExchangeGenerator,
      ChangeCipherSpecGenerator,
      FinishedGenerator,
      ExpectChangeCipherSpec,
      ExpectFinished,
      ApplicationDataGenerator
        (''GET /?Renegotiation_Test=tlsfuzzer HTTP/1.0'' @ [CHR 0x0D, CHR 0x0A, CHR 0x0D, CHR 0x0A]),
      ExpectApplicationData,
      AlertGenerator warning close_notify,
      ExpectAlert None None]
   \<and> alternative_of_last (sanity_conversation h p) = Some ExpectClose
   \<and> with_sibling (sanity_conversation h p) = [13]
   \<and> length (nodes (sanity_conversation h p)) = 15
   \<and> root (sanity_conversation h p) = 0
   \<and> map children (nodes (sanity_conversation h p)) =
       [[1], [2], [3], [4], [5], [6], [7], [8], [9], [10], [11], [12], [13], [], []]
   \<and> map next_sibling (nodes (sanity_conversation h p)) =
       [None, None, None, None, None, None, None, None, None, None, None, None, None,
        Some 14, None]
   \<and> kind (nodes (sanity_conversation h p) ! 14) = ExpectClose"
  by (simp add: sanity_sequence sanity_alternative sanity_size sanity_siblings
      sanity_root sanity_children sanity_next_siblings sanity_close_kind
      get_request_def CRLF_def)

subsection \<open>The renegotiation conversations\<close>

lemma after_secure_get_after:
  "node_after_second_hello (secure_get_after h p b) =
     Some (ExpectAlert (Some warning) (Some no_renegotiation))"
  by (cases b; simp add: secure_get_after_def build_defs read_defs eval_nat_numeral)

lemma after_secure_incomplete_get:
  "node_after_second_hello (secure_incomplete_get h p b) =
     Some (ExpectAlert (Some warning) (Some no_renegotiation))"
  by (cases b; simp add: secure_incomplete_get_def build_defs read_defs eval_nat_numeral)

lemma after_insecure_get_after:
  "node_after_second_hello (insecure_get_after h p b) =
     Some (ExpectAlert (Some warning) (Some no_renegotiation))"
  by (cases b; simp add: insecure_get_after_def build_defs read_defs eval_nat_numeral)

lemma after_insecure_incomplete_get:
  "node_after_second_hello (insecure_incomplete_get h p b) =
     Some (ExpectAlert (Some warning) (Some no_renegotiation))"
  by (cases b; simp add: insecure_incomplete_get_def build_defs read_defs eval_nat_numeral)

lemma before_secure_get_after:
  "node_before_second_hello (secure_get_after h p b) = Some ResetHandshakeHashes"
  by (cases b; simp add: secure_get_after_def build_defs read_defs eval_nat_numeral)

lemma before_secure_incomplete_get:
  "node_before_second_hello (secure_incomplete_get h p b) = Some ResetHandshakeHashes"
  by (cases b; simp add: secure_incomplete_get_def build_defs read_defs eval_nat_numeral)

lemma before_insecure_get_after:
  "node_before_second_hello (insecure_get_after h p b) = Some ResetHandshakeHashes"
  by (cases b; simp add: insecure_get_after_def build_defs read_defs eval_nat_numeral)

lemma before_insecure_incomplete_get:
  "node_before_second_hello (insecure_incomplete_get h p b) = Some ResetHandshakeHashes"
  by (cases b; simp add: insecure_incomplete_get_def build_defs read_defs eval_nat_numeral)

text \<open>
  C4: in each of the four renegotiation conversations, whatever the host, the port and
  the option \<^verbatim>\<open>--no-renego-close\<close>, the node that follows the second ClientHello
  generator is an alert expectation with the level \<^verbatim>\<open>warning\<close> and the description
  \<^verbatim>\<open>no_renegotiation\<close>, not an expectation of any alert.
\<close>

theorem no_renegotiation_alert_after_second_hello:
  "length (regular_tests (build_conversations h p b)) = 4
   \<and> (\<forall>(c_name, c) \<in> set (regular_tests (build_conversations h p b)).
        node_after_second_hello c = Some (ExpectAlert (Some warning) (Some no_renegotiation))
        \<and> node_after_second_hello c \<noteq> Some (ExpectAlert None None))"
  by (simp add: regular_tests_build after_secure_get_after after_secure_incomplete_get
      after_insecure_get_after after_insecure_incomplete_get)

theorem no_renegotiation_alert_after_second_hello_witness:
  "node_after_second_hello (insecure_incomplete_get ''localhost'' 4433 True) =
     Some (ExpectAlert (Some warning) (Some no_renegotiation))"
  using no_renegotiation_alert_after_second_hello [of "''localhost''" 4433 True]
  by (simp add: regular_tests_build)

text \<open>
  C5: in each of the four renegotiation conversations, the node before the ClientHello
  generator of the second handshake is a \<^verbatim>\<open>ResetHandshakeHashes\<close> node, and that
  ClientHello generator is its one child, so that no node stands between the two.
\<close>

theorem reset_before_second_hello:
  "length (regular_tests (build_conversations h p b)) = 4
   \<and> (\<forall>(c_name, c) \<in> set (regular_tests (build_conversations h p b)).
        node_before_second_hello c = Some ResetHandshakeHashes)"
  by (simp add: regular_tests_build before_secure_get_after before_secure_incomplete_get
      before_insecure_get_after before_insecure_incomplete_get)

theorem reset_before_second_hello_witness:
  "node_before_second_hello (secure_incomplete_get ''localhost'' 4433 False) =
     Some ResetHandshakeHashes"
  using reset_before_second_hello [of "''localhost''" 4433 False]
  by (simp add: regular_tests_build)

section \<open>Sampling\<close>

text \<open>
  One draw takes an element out of the live part of the pool: the drawn element and the
  live part that remains make up the live part before the draw.
\<close>

lemma pool_swap:
  assumes "j < r" "r \<le> length pool"
  shows "add_mset (pool ! j) (mset (take (r - 1) (pool[j := pool ! (r - 1)]))) = mset (take r pool)"
proof -
  obtain r' where r: "r = Suc r'" using assms(1) by (cases r) auto
  have r'l: "r' < length pool" using assms(2) r by simp
  have t: "mset (take (Suc r') pool) = add_mset (pool ! r') (mset (take r' pool))"
    using r'l by (simp add: take_Suc_conv_app_nth)
  have goal: "add_mset (pool ! j) (mset (take r' (pool[j := pool ! r']))) =
      add_mset (pool ! r') (mset (take r' pool))"
  proof (cases "j = r'")
    case True
    then show ?thesis by simp
  next
    case False
    then have jr: "j < r'" using assms(1) r by simp
    define ls where "ls = take r' pool"
    have jl: "j < length ls" using jr r'l by (simp add: ls_def)
    have lj: "ls ! j = pool ! j" using jr by (simp add: ls_def)
    have up: "take r' (pool[j := pool ! r']) = ls[j := pool ! r']"
      using jr by (simp add: ls_def take_update_swap)
    have mem: "pool ! j \<in># mset ls"
      using jl lj nth_mem [of j ls] by simp
    have "mset (ls[j := pool ! r']) = add_mset (pool ! r') (mset ls - {#pool ! j#})"
      using jl lj by (simp add: mset_update)
    then have "add_mset (pool ! j) (mset (ls[j := pool ! r'])) = add_mset (pool ! r') (mset ls)"
      using mem by simp
    then show ?thesis by (simp only: up ls_def)
  qed
  show ?thesis using goal unfolding r t by simp
qed

lemma sample_loop_mset:
  "m \<le> n - i \<Longrightarrow> n - i \<le> length pool \<Longrightarrow>
   mset (sample_loop rnd n i pool m) \<subseteq># mset (take (n - i) pool)"
proof (induction m arbitrary: i pool)
  case 0
  then show ?case by simp
next
  case (Suc m)
  define j where "j = randbelow rnd i (n - i)"
  define pool' where "pool' = pool[j := pool ! (n - i - 1)]"
  have pos: "0 < n - i" using Suc.prems(1) by simp
  then have j: "j < n - i" by (simp add: randbelow_def j_def)
  have eq: "sample_loop rnd n i pool (Suc m) = pool ! j # sample_loop rnd n (Suc i) pool' m"
    by (simp add: Let_def j_def pool'_def)
  have len: "n - Suc i \<le> length pool'" using Suc.prems(2) by (simp add: pool'_def)
  have m: "m \<le> n - Suc i" using Suc.prems(1) by simp
  have ih: "mset (sample_loop rnd n (Suc i) pool' m) \<subseteq># mset (take (n - Suc i) pool')"
    using m len by (rule Suc.IH)
  have sw: "add_mset (pool ! j) (mset (take (n - i - 1) pool')) = mset (take (n - i) pool)"
    unfolding pool'_def using j Suc.prems(2) by (rule pool_swap)
  have nS: "n - Suc i = n - i - 1" by simp
  have "add_mset (pool ! j) (mset (sample_loop rnd n (Suc i) pool' m))
      \<subseteq># add_mset (pool ! j) (mset (take (n - i - 1) pool'))"
    using ih unfolding nS by (simp only: mset_subset_eq_add_mset_cancel)
  then have "mset (pool ! j # sample_loop rnd n (Suc i) pool' m) \<subseteq># mset (take (n - i) pool)"
    unfolding sw by simp
  then show ?case unfolding eq .
qed

lemma sample_loop_length: "length (sample_loop rnd n i pool m) = m"
  by (induction m arbitrary: i pool) (simp_all add: Let_def)

lemma setsize_ge: "21 \<le> setsize k"
  by (simp add: setsize_def)

lemma sample_small:
  assumes "0 \<le> k" "k \<le> int (length xs)" "length xs \<le> 21"
  shows "\<exists>ys. sample rnd xs k = Some (Inr ys) \<and> int (length ys) = k \<and> mset ys \<subseteq># mset xs"
proof -
  have "mset (sample_loop rnd (length xs) 0 xs (nat k)) \<subseteq># mset (take (length xs - 0) xs)"
    using assms by (intro sample_loop_mset) simp_all
  moreover have "length xs \<le> setsize (nat k)"
    using assms(3) setsize_ge [of "nat k"] by simp
  ultimately show ?thesis using assms by (simp add: sample_def sample_loop_length)
qed

lemma sample_error: "k < 0 \<or> int (length xs) < k \<Longrightarrow> sample rnd xs k = Some (Inl ValueError)"
  by (auto simp: sample_def)

lemma distinct_fst_submset:
  assumes "mset ys \<subseteq># mset xs" "distinct (map fst xs)"
  shows "distinct (map fst ys)"
proof -
  obtain Z where Z: "mset xs = mset ys + Z"
    using assms(1) by (auto simp: mset_subset_eq_exists_conv)
  obtain zs where zs: "mset zs = Z"
    using ex_mset by blast
  have "mset xs = mset (ys @ zs)"
    using Z zs by simp
  then have "mset (map fst xs) = mset (map fst (ys @ zs))"
    by (simp only: mset_map)
  then have "distinct (map fst (ys @ zs))"
    using assms(2) mset_eq_imp_distinct_iff by blast
  then show ?thesis by simp
qed

lemma regular_names:
  "map fst (regular_tests (build_conversations h p b)) =
     [''try secure renegotiation with GET after 2nd CH'',
      ''try secure renegotiation with incomplete GET'',
      ''try insecure (legacy) renegotiation with GET after 2nd CH'',
      ''try insecure (legacy) renegotiation with incomplete GET'']"
  by (simp add: regular_tests_build)

lemma regular_distinct: "distinct (map fst (regular_tests (build_conversations h p b)))"
  by (simp add: regular_names)

lemma regular_length: "length (regular_tests (build_conversations h p b)) = 4"
  by (simp add: regular_tests_build)

lemma conversations_length: "length (build_conversations h p b) = 5"
  by (simp add: build_conversations_items)

lemma sanity_lookup:
  "map_of (build_conversations h p b) ''sanity'' = Some (sanity_conversation h p)"
  by (simp add: build_conversations_items)

lemma sampled_build:
  assumes "limit = None \<or> (\<exists>k. limit = Some k \<and> 0 \<le> k)"
  shows "\<exists>ts. sampled_tests (build_conversations h p b) limit rnd = Some (Inr ts)
     \<and> int (length ts) = min (effective_limit (build_conversations h p b) limit) 4
     \<and> mset ts \<subseteq># mset (regular_tests (build_conversations h p b))"
proof -
  let ?cs = "build_conversations h p b"
  have e: "0 \<le> effective_limit ?cs limit"
    using assms by (auto simp: effective_limit_def)
  have "0 \<le> min (effective_limit ?cs limit) (int (length (regular_tests ?cs)))"
    using e by simp
  moreover have "min (effective_limit ?cs limit) (int (length (regular_tests ?cs)))
      \<le> int (length (regular_tests ?cs))" by simp
  moreover have "length (regular_tests ?cs) \<le> 21" by (simp add: regular_length)
  ultimately obtain ys where
    "sample rnd (regular_tests ?cs) (min (effective_limit ?cs limit) (int (length (regular_tests ?cs)))) = Some (Inr ys)"
    "int (length ys) = min (effective_limit ?cs limit) (int (length (regular_tests ?cs)))"
    "mset ys \<subseteq># mset (regular_tests ?cs)"
    using sample_small by blast
  then show ?thesis by (auto simp: sampled_tests_def Let_def regular_length)
qed

lemma sampled_negative:
  "k < 0 \<Longrightarrow> sampled_tests (build_conversations h p b) (Some k) rnd = Some (Inl ValueError)"
  by (simp add: sampled_tests_def Let_def effective_limit_def sample_error)

section \<open>The loop\<close>

text \<open>
  The loop skips the tests that the condition of line 275 names, and runs the others as
  it would with no filter at all.
\<close>

lemma skipped_none: "\<not> skipped None {} n"
  by (simp add: skipped_def)

lemma executed_none: "executed None {} tests = tests"
  by (simp add: executed_def skipped_none)

lemma run_tests_executed:
  "run_tests run ro ex tests w s = run_tests run None {} (executed ro ex tests) w s"
proof (induction tests arbitrary: w s)
  case Nil
  then show ?case by (simp add: executed_def)
next
  case (Cons t tests)
  obtain n c where t: "t = (n, c)" by (cases t)
  show ?case
  proof (cases "skipped ro ex n")
    case True
    then show ?thesis using Cons.IH by (simp add: t executed_def)
  next
    case False
    then show ?thesis using Cons.IH
      by (simp add: t executed_def skipped_none Let_def split: prod.splits run_result.splits)
  qed
qed

text \<open>One round of the loop on a test that is not skipped.\<close>

lemma run_tests_step:
  "run_tests run None {} ((n, c) # tests) w s =
     (case run w c of
        (Returned, w1) \<Rightarrow>
          run_tests run None {} tests w1
            (s\<lparr>good := good s + 1, stdout := stdout s @ [n @ '' ...'', ''OK'' @ [CHR 0x0A]]\<rparr>)
      | (Raised tb, w1) \<Rightarrow>
          run_tests run None {} tests w1
            (s\<lparr>bad := bad s + 1, failed := failed s @ [n],
               stdout := stdout s @ [n @ '' ...'', ''Error while processing'', tb]\<rparr>)
      | (Raised_base e, w1) \<Rightarrow> Inl (Uncaught e))"
  by (simp add: skipped_none Let_def split: prod.splits run_result.splits)

lemma run_all_state:
  "run_tests run None {} tests w s = Inr (w', s') \<Longrightarrow>
   good s' = good s + int (length (filter (\<lambda>a. is_returned (snd a)) (attempts run w tests)))
   \<and> bad s' = bad s + int (length (filter (\<lambda>a. is_raised (snd a)) (attempts run w tests)))
   \<and> failed s' = failed s @ map fst (filter (\<lambda>a. is_raised (snd a)) (attempts run w tests))
   \<and> map fst (attempts run w tests) = map fst tests
   \<and> \<not> list_ex (\<lambda>a. is_uncaught (snd a)) (attempts run w tests)"
proof (induction tests arbitrary: w s)
  case Nil
  then show ?case by simp
next
  case (Cons t tests)
  obtain n c where t: "t = (n, c)" by (cases t)
  obtain r w1 where r: "run w c = (r, w1)" by (cases "run w c")
  show ?case
  proof (cases r)
    case Returned
    define s2 where "s2 = s\<lparr>good := good s + 1, stdout := stdout s @ [n @ '' ...'', ''OK'' @ [CHR 0x0A]]\<rparr>"
    have "run_tests run None {} tests w1 s2 = Inr (w', s')"
      using Cons.prems r t Returned by (simp add: run_tests_step s2_def del: run_tests.simps)
    from Cons.IH [OF this] show ?thesis
      using r t Returned by (simp add: s2_def)
  next
    case (Raised tb)
    define s2 where "s2 = s\<lparr>bad := bad s + 1, failed := failed s @ [n],
      stdout := stdout s @ [n @ '' ...'', ''Error while processing'', tb]\<rparr>"
    have "run_tests run None {} tests w1 s2 = Inr (w', s')"
      using Cons.prems r t Raised by (simp add: run_tests_step s2_def del: run_tests.simps)
    from Cons.IH [OF this] show ?thesis
      using r t Raised by (simp add: s2_def)
  next
    case (Raised_base e)
    then show ?thesis using Cons.prems r t by (simp add: run_tests_step del: run_tests.simps)
  qed
qed

lemma run_all_total:
  "\<forall>w c. \<not> is_uncaught (fst (run w c)) \<Longrightarrow> \<exists>w' s'. run_tests run None {} tests w s = Inr (w', s')"
proof (induction tests arbitrary: w s)
  case Nil
  then show ?case by simp
next
  case (Cons t tests)
  obtain n c where t: "t = (n, c)" by (cases t)
  obtain r w1 where r: "run w c = (r, w1)" by (cases "run w c")
  have nb: "\<not> is_uncaught r" using Cons.prems r by (metis fst_conv)
  show ?case
  proof (cases r)
    case Returned
    then show ?thesis using Cons.IH [OF Cons.prems] r t
      by (simp add: run_tests_step del: run_tests.simps)
  next
    case (Raised tb)
    then show ?thesis using Cons.IH [OF Cons.prems] r t
      by (simp add: run_tests_step del: run_tests.simps)
  next
    case (Raised_base e)
    then show ?thesis using nb by simp
  qed
qed

lemma run_all_error:
  "run_tests run None {} tests w s = Inl e \<Longrightarrow>
   \<exists>n x. e = Uncaught x \<and> attempts run w tests \<noteq> [] \<and> last (attempts run w tests) = (n, Raised_base x)"
proof (induction tests arbitrary: w s)
  case Nil
  then show ?case by simp
next
  case (Cons t tests)
  obtain n c where t: "t = (n, c)" by (cases t)
  obtain r w1 where r: "run w c = (r, w1)" by (cases "run w c")
  show ?case
  proof (cases r)
    case Returned
    define s2 where "s2 = s\<lparr>good := good s + 1, stdout := stdout s @ [n @ '' ...'', ''OK'' @ [CHR 0x0A]]\<rparr>"
    have "run_tests run None {} tests w1 s2 = Inl e"
      using Cons.prems r t Returned by (simp add: run_tests_step s2_def del: run_tests.simps)
    from Cons.IH [OF this] show ?thesis
      using r t Returned by auto
  next
    case (Raised tb)
    define s2 where "s2 = s\<lparr>bad := bad s + 1, failed := failed s @ [n],
      stdout := stdout s @ [n @ '' ...'', ''Error while processing'', tb]\<rparr>"
    have "run_tests run None {} tests w1 s2 = Inl e"
      using Cons.prems r t Raised by (simp add: run_tests_step s2_def del: run_tests.simps)
    from Cons.IH [OF this] show ?thesis
      using r t Raised by auto
  next
    case (Raised_base x)
    then show ?thesis using Cons.prems r t by (simp add: run_tests_step del: run_tests.simps)
  qed
qed

lemma run_all_stdout:
  "run_tests run None {} tests w s = Inr (w', s') \<Longrightarrow>
   set (stdout s) \<subseteq> set (stdout s')
   \<and> (\<forall>n tb. (n, Raised tb) \<in> set (attempts run w tests) \<longrightarrow> tb \<in> set (stdout s'))"
proof (induction tests arbitrary: w s)
  case Nil
  then show ?case by simp
next
  case (Cons t tests)
  obtain n c where t: "t = (n, c)" by (cases t)
  obtain r w1 where r: "run w c = (r, w1)" by (cases "run w c")
  show ?case
  proof (cases r)
    case Returned
    define s2 where "s2 = s\<lparr>good := good s + 1, stdout := stdout s @ [n @ '' ...'', ''OK'' @ [CHR 0x0A]]\<rparr>"
    have "run_tests run None {} tests w1 s2 = Inr (w', s')"
      using Cons.prems r t Returned by (simp add: run_tests_step s2_def del: run_tests.simps)
    from Cons.IH [OF this] show ?thesis
      using r t Returned by (auto simp: s2_def)
  next
    case (Raised tb)
    define s2 where "s2 = s\<lparr>bad := bad s + 1, failed := failed s @ [n],
      stdout := stdout s @ [n @ '' ...'', ''Error while processing'', tb]\<rparr>"
    have "run_tests run None {} tests w1 s2 = Inr (w', s')"
      using Cons.prems r t Raised by (simp add: run_tests_step s2_def del: run_tests.simps)
    from Cons.IH [OF this] show ?thesis
      using r t Raised by (auto simp: s2_def)
  next
    case (Raised_base x)
    then show ?thesis using Cons.prems r t by (simp add: run_tests_step del: run_tests.simps)
  qed
qed

section \<open>The run of main\<close>

lemma ordered_build:
  assumes "limit = None \<or> (\<exists>k. limit = Some k \<and> 0 \<le> k)"
  shows "\<exists>ts. ordered_tests (build_conversations h p b) limit rnd =
       Some (Inr ((''sanity'', sanity_conversation h p) # ts @ [(''sanity'', sanity_conversation h p)]))
     \<and> sampled_tests (build_conversations h p b) limit rnd = Some (Inr ts)
     \<and> int (length ts) = min (effective_limit (build_conversations h p b) limit) 4
     \<and> mset ts \<subseteq># mset (regular_tests (build_conversations h p b))"
proof -
  obtain ts where ts: "sampled_tests (build_conversations h p b) limit rnd = Some (Inr ts)"
    "int (length ts) = min (effective_limit (build_conversations h p b) limit) 4"
    "mset ts \<subseteq># mset (regular_tests (build_conversations h p b))"
    using sampled_build [OF assms] by blast
  then show ?thesis by (simp add: ordered_tests_def sanity_lookup)
qed

lemma ordered_negative:
  "k < 0 \<Longrightarrow> ordered_tests (build_conversations h p b) (Some k) rnd = Some (Inl ValueError)"
  by (simp add: ordered_tests_def sanity_lookup sampled_negative)

lemma sampled_names:
  assumes "mset ts \<subseteq># mset (regular_tests (build_conversations h p b))"
  shows "distinct (map fst ts)" and "''sanity'' \<notin> fst ` set ts"
    and "set ts \<subseteq> set (regular_tests (build_conversations h p b))"
proof -
  show "distinct (map fst ts)"
    using assms regular_distinct by (rule distinct_fst_submset)
  show sub: "set ts \<subseteq> set (regular_tests (build_conversations h p b))"
    using assms by (metis set_mset_mono set_mset_mset)
  show "''sanity'' \<notin> fst ` set ts"
    using sub by (auto simp: regular_tests_def)
qed

lemma summary_fields:
  "good (summary report s) = good s" "bad (summary report s) = bad s"
  "failed (summary report s) = failed s"
  "set (stdout s) \<subseteq> set (stdout (summary report s))"
  by (auto simp: summary_def)

lemma main_returns:
  assumes "main cfg rnd run report w = Some (Inr (status, s))"
  shows "\<exists>tests w' s0.
      ordered_tests (build_conversations (host cfg) (port cfg) (no_renego_close cfg))
        (num_limit cfg) rnd = Some (Inr tests)
    \<and> run_tests run None {} (executed (run_only_of (args cfg)) (run_exclude cfg) tests) w
        initial_state = Inr (w', s0)
    \<and> main_attempts cfg rnd run w =
        attempts run w (executed (run_only_of (args cfg)) (run_exclude cfg) tests)
    \<and> status = exit_status s0 \<and> s = summary report s0"
  using assms
  by (auto simp: main_def main_attempts_def Let_def run_tests_executed [symmetric]
      split: option.splits sum.splits prod.splits)

lemma main_result:
  assumes "main cfg rnd run report w = Some (Inr (status, s))"
  shows "good s = int (length (filter (\<lambda>a. is_returned (snd a)) (main_attempts cfg rnd run w)))"
    and "bad s = int (length (filter (\<lambda>a. is_raised (snd a)) (main_attempts cfg rnd run w)))"
    and "failed s = map fst (filter (\<lambda>a. is_raised (snd a)) (main_attempts cfg rnd run w))"
    and "\<not> list_ex (\<lambda>a. is_uncaught (snd a)) (main_attempts cfg rnd run w)"
    and "status = (if 0 < bad s then 1 else 0)"
    and "\<forall>n tb. (n, Raised tb) \<in> set (main_attempts cfg rnd run w) \<longrightarrow> tb \<in> set (stdout s)"
proof -
  obtain tests w' s0 where
    r: "run_tests run None {} (executed (run_only_of (args cfg)) (run_exclude cfg) tests) w
        initial_state = Inr (w', s0)"
    and a: "main_attempts cfg rnd run w =
        attempts run w (executed (run_only_of (args cfg)) (run_exclude cfg) tests)"
    and st: "status = exit_status s0" "s = summary report s0"
    using main_returns [OF assms] by blast
  note f = run_all_state [OF r] run_all_stdout [OF r]
  show "good s = int (length (filter (\<lambda>a. is_returned (snd a)) (main_attempts cfg rnd run w)))"
    using f st by (simp add: a summary_fields initial_state_def)
  show "bad s = int (length (filter (\<lambda>a. is_raised (snd a)) (main_attempts cfg rnd run w)))"
    using f st by (simp add: a summary_fields initial_state_def)
  show "failed s = map fst (filter (\<lambda>a. is_raised (snd a)) (main_attempts cfg rnd run w))"
    using f st by (simp add: a summary_fields initial_state_def)
  show "\<not> list_ex (\<lambda>a. is_uncaught (snd a)) (main_attempts cfg rnd run w)"
    using f by (simp add: a)
  show "status = (if 0 < bad s then 1 else 0)"
    using st by (simp add: exit_status_def summary_fields)
  show "\<forall>n tb. (n, Raised tb) \<in> set (main_attempts cfg rnd run w) \<longrightarrow> tb \<in> set (stdout s)"
    using f st summary_fields(4) [of s0 report] by (auto simp: a)
qed


lemma main_total:
  assumes "\<forall>w c. \<not> is_uncaught (fst (run w c))"
    and "num_limit cfg = None \<or> (\<exists>k. num_limit cfg = Some k \<and> 0 \<le> k)"
  shows "\<exists>status s. main cfg rnd run report w = Some (Inr (status, s))"
proof -
  obtain tests where o: "ordered_tests (build_conversations (host cfg) (port cfg) (no_renego_close cfg))
        (num_limit cfg) rnd = Some (Inr tests)"
    using ordered_build [OF assms(2)] by blast
  obtain w' s' where "run_tests run None {} (executed (run_only_of (args cfg)) (run_exclude cfg) tests) w
        initial_state = Inr (w', s')"
    using run_all_total [OF assms(1)] by blast
  then show ?thesis using o
    by (simp add: main_def Let_def run_tests_executed [of run "run_only_of (args cfg)"])
qed

section \<open>Concrete runs\<close>

lemma sample_loop_numeral:
  "sample_loop rnd n i pool (numeral v) =
     (let j = randbelow rnd i (n - i)
      in pool ! j # sample_loop rnd n (Suc i) (pool[j := pool ! (n - i - 1)]) (pred_numeral v))"
  by (simp add: numeral_eq_Suc)

lemmas eval_defs = main_attempts_def ordered_tests_def sampled_tests_def sample_def setsize_def
  effective_limit_def sanity_lookup regular_tests_build conversations_length
  randbelow_def executed_def skipped_def run_only_of_def default_settings_def Let_def
  sample_loop_numeral



section \<open>The claims about the run\<close>

text \<open>
  C1, as the claim states it: with the limit \<open>k = 0\<close>, \<open>min k M = 0\<close> conversations
  would be sampled. The script takes the limit 0 for no limit and samples all four.
\<close>

theorem zero_limit_counterexample:
  "map_option (map_sum id (map fst))
     (sampled_tests (build_conversations ''localhost'' 4433 False) (Some 0) (\<lambda>c. 0)) =
     Some (Inr [''try secure renegotiation with GET after 2nd CH'',
                ''try insecure (legacy) renegotiation with incomplete GET'',
                ''try insecure (legacy) renegotiation with GET after 2nd CH'',
                ''try secure renegotiation with incomplete GET''])
   \<and> min (0::int) (int (length (regular_tests (build_conversations ''localhost'' 4433 False)))) = 0"
  by (simp add: eval_defs)

text \<open>
  C1, amended: \<^verbatim>\<open>main\<close> builds \<open>M = 4\<close> conversations other than the sanity
  conversation. With a limit \<open>k \<ge> 1\<close> it samples \<open>min k M\<close> of them; with the limit
  \<open>k = 0\<close> it samples all \<open>M\<close>. The sample is taken without replacement: its
  entries are entries of the non-sanity conversations and no name appears twice.
\<close>

theorem sampled_tests_size:
  assumes "0 \<le> k"
  shows "\<exists>ts. sampled_tests (build_conversations h p b) (Some k) rnd = Some (Inr ts)
     \<and> int (length ts) =
         (if k = 0 then int (length (regular_tests (build_conversations h p b)))
          else min k (int (length (regular_tests (build_conversations h p b)))))
     \<and> distinct (map fst ts)
     \<and> set ts \<subseteq> set (regular_tests (build_conversations h p b))
     \<and> length (regular_tests (build_conversations h p b)) = 4"
proof -
  have "Some k = None \<or> (\<exists>j. Some k = Some j \<and> 0 \<le> j)" using assms by simp
  then obtain ts where ts: "sampled_tests (build_conversations h p b) (Some k) rnd = Some (Inr ts)"
    "int (length ts) = min (effective_limit (build_conversations h p b) (Some k)) 4"
    "mset ts \<subseteq># mset (regular_tests (build_conversations h p b))"
    using sampled_build by blast
  have "int (length ts) = (if k = 0 then 4 else min k 4)"
    using ts(2) by (simp add: effective_limit_def conversations_length)
  then show ?thesis
    using ts(1) sampled_names(1,3) [OF ts(3)] by (simp add: regular_length)
qed

theorem sampled_tests_size_witness:
  "\<exists>ts. sampled_tests (build_conversations ''localhost'' 4433 False) (Some 2) (\<lambda>c. c) = Some (Inr ts)
     \<and> length ts = 2 \<and> distinct (map fst ts)"
  using sampled_tests_size [of 2 "''localhost''" 4433 False "\<lambda>c. c"] by (auto simp: regular_length)




text \<open>
  C6, as the claim states it: any exception raised while a conversation runs would be
  caught and the remaining conversations would still be attempted. The handler is
  \<^verbatim>\<open>except Exception\<close>: a \<^verbatim>\<open>KeyboardInterrupt\<close> raised in the second run leaves
  \<^verbatim>\<open>main\<close>, and the four conversations after it are not attempted.
\<close>

theorem keyboard_interrupt_counterexample:
  "main default_settings (\<lambda>c. 0)
     (\<lambda>w c. (if w = 1 then Raised_base ''KeyboardInterrupt'' else Returned, w + 1))
     (\<lambda>f. []) (0::nat) =
     Some (Inl (Uncaught ''KeyboardInterrupt''))
   \<and> main_attempts default_settings (\<lambda>c. 0)
     (\<lambda>w c. (if w = 1 then Raised_base ''KeyboardInterrupt'' else Returned, w + 1)) (0::nat) =
     [(''sanity'', Returned),
      (''try secure renegotiation with GET after 2nd CH'', Raised_base ''KeyboardInterrupt'')]
   \<and> map_option (map_sum id length)
       (ordered_tests (build_conversations ''localhost'' 4433 False) None (\<lambda>c. 0)) =
     Some (Inr 6)"
  by (simp add: main_def eval_defs initial_state_def)

text \<open>
  C6, amended: when every exception that a run raises is derived from
  \<^verbatim>\<open>Exception\<close>, the loop ends normally from any state and on any list of tests:
  every test that is not skipped is attempted, whatever the tests before it did, and
  the tests that raised, and only they, are counted in \<^verbatim>\<open>bad\<close> and added to
  \<^verbatim>\<open>failed\<close>, in the order of the attempts.
\<close>

theorem exceptions_caught:
  assumes "\<forall>w c. \<not> is_uncaught (fst (run w c))"
  shows "\<exists>w' s'. run_tests run run_only excl tests w s = Inr (w', s')
     \<and> map fst (attempts run w (executed run_only excl tests)) =
         map fst (executed run_only excl tests)
     \<and> failed s' = failed s @
         map fst (filter (\<lambda>a. is_raised (snd a)) (attempts run w (executed run_only excl tests)))
     \<and> bad s' = bad s +
         int (length (filter (\<lambda>a. is_raised (snd a)) (attempts run w (executed run_only excl tests))))"
proof -
  obtain w' s' where r: "run_tests run None {} (executed run_only excl tests) w s = Inr (w', s')"
    using run_all_total [OF assms] by blast
  then have "run_tests run run_only excl tests w s = Inr (w', s')"
    by (simp add: run_tests_executed [of run run_only])
  then show ?thesis using run_all_state [OF r] by simp
qed

theorem exceptions_caught_witness:
  "\<exists>w' s'. run_tests (\<lambda>w c. (if w = (0::nat) then Raised ''AssertionError'' else Returned, w + 1))
       None {} (regular_tests (build_conversations ''localhost'' 4433 False)) 0 initial_state =
       Inr (w', s')
     \<and> failed s' = [''try secure renegotiation with GET after 2nd CH'']
     \<and> bad s' = 1
     \<and> map fst (attempts (\<lambda>w c. (if w = (0::nat) then Raised ''AssertionError'' else Returned, w + 1))
          0 (regular_tests (build_conversations ''localhost'' 4433 False))) =
        [''try secure renegotiation with GET after 2nd CH'',
         ''try secure renegotiation with incomplete GET'',
         ''try insecure (legacy) renegotiation with GET after 2nd CH'',
         ''try insecure (legacy) renegotiation with incomplete GET'']"
proof -
  let ?run = "\<lambda>(w::nat) (c::conversation). (if w = 0 then Raised ''AssertionError'' else Returned, w + 1)"
  have h: "\<forall>w c. \<not> is_uncaught (fst (?run w c))" by simp
  from exceptions_caught [OF h, of None "{}" "regular_tests (build_conversations ''localhost'' 4433 False)"
      0 initial_state]
  show ?thesis by (simp add: executed_none regular_tests_build initial_state_def)
qed

text \<open>
  C7: when \<^verbatim>\<open>main\<close> reaches its end, the exit status is 1 if the run of at least
  one attempted conversation raised an exception, and 0 if the run of every attempted
  conversation returned; one of the two is the case.
\<close>

theorem exit_status_reflects_failures:
  assumes "main cfg rnd run report w = Some (Inr (status, s))"
  shows "(list_ex (\<lambda>a. is_raised (snd a)) (main_attempts cfg rnd run w) \<and> status = 1)
     \<or> (list_all (\<lambda>a. is_returned (snd a)) (main_attempts cfg rnd run w) \<and> status = 0)"
proof -
  let ?as = "main_attempts cfg rnd run w"
  note f = main_result [OF assms]
  have cases: "\<And>r. is_returned r \<or> is_raised r \<or> is_uncaught r"
    by (case_tac r) simp_all
  show ?thesis
  proof (cases "filter (\<lambda>a. is_raised (snd a)) ?as = []")
    case True
    then have "\<forall>a \<in> set ?as. \<not> is_raised (snd a)" by (simp add: filter_empty_conv)
    moreover have "\<forall>a \<in> set ?as. \<not> is_uncaught (snd a)" using f(4) by (simp add: list_ex_iff)
    ultimately have "\<forall>a \<in> set ?as. is_returned (snd a)" using cases by blast
    then show ?thesis using True f(2,5) by (simp add: list_all_iff)
  next
    case False
    then have "list_ex (\<lambda>a. is_raised (snd a)) ?as"
      by (auto simp: list_ex_iff filter_empty_conv)
    moreover have "0 < bad s" using False f(2) by simp
    ultimately show ?thesis using f(5) by simp
  qed
qed

theorem exit_status_reflects_failures_witness:
  "\<exists>status s. main default_settings (\<lambda>c. 0)
       (\<lambda>w c. (if w = (5::nat) then Raised ''AssertionError'' else Returned, w + 1)) (\<lambda>f. []) 0 =
       Some (Inr (status, s)) \<and> status = 1"
proof -
  let ?run = "\<lambda>(w::nat) (c::conversation). (if w = 5 then Raised ''AssertionError'' else Returned, w + 1)"
  have "\<exists>status s. main default_settings (\<lambda>c. 0) ?run (\<lambda>f. []) 0 = Some (Inr (status, s))"
    by (rule main_total) (simp_all add: default_settings_def)
  then obtain status s where m: "main default_settings (\<lambda>c. 0) ?run (\<lambda>f. []) 0 = Some (Inr (status, s))"
    by blast
  have "main_attempts default_settings (\<lambda>c. 0) ?run 0 =
     [(''sanity'', Returned),
      (''try secure renegotiation with GET after 2nd CH'', Returned),
      (''try insecure (legacy) renegotiation with incomplete GET'', Returned),
      (''try insecure (legacy) renegotiation with GET after 2nd CH'', Returned),
      (''try secure renegotiation with incomplete GET'', Returned),
      (''sanity'', Raised ''AssertionError'')]"
    by (simp add: eval_defs)
  with exit_status_reflects_failures [OF m] have "status = 1" by simp
  then show ?thesis using m by blast
qed

lemma outcome_lengths:
  "\<not> list_ex (\<lambda>a. is_uncaught (snd a)) as \<Longrightarrow>
   length (filter (\<lambda>a. is_returned (snd a)) as) + length (filter (\<lambda>a. is_raised (snd a)) as) =
   length as"
proof (induction as)
  case Nil
  then show ?case by simp
next
  case (Cons a as)
  then show ?case by (cases "snd a") simp_all
qed

text \<open>
  C8, as the claim states it: the result data would map the name of each attempted
  conversation to its outcome and to the exception context of a failure. The result
  data are the two counters and the list \<^verbatim>\<open>failed\<close>. Two runs that attempt
  different conversations, all of which pass, leave the same result data, with no name
  in them; and two runs that fail with different exceptions leave the same result data.
\<close>

theorem result_data_counterexample:
  "map_option (map_sum id (\<lambda>(status, s). (good s, bad s, failed s)))
     (main (default_settings\<lparr>num_limit := Some 1\<rparr>) (\<lambda>c. 0) (\<lambda>w c. (Returned, w)) (\<lambda>f. []) ()) =
     Some (Inr (3, 0, []))
   \<and> map_option (map_sum id (\<lambda>(status, s). (good s, bad s, failed s)))
     (main (default_settings\<lparr>num_limit := Some 1\<rparr>) (\<lambda>c. 1) (\<lambda>w c. (Returned, w)) (\<lambda>f. []) ()) =
     Some (Inr (3, 0, []))
   \<and> map fst (main_attempts (default_settings\<lparr>num_limit := Some 1\<rparr>) (\<lambda>c. 0)
       (\<lambda>w c. (Returned, w)) ()) =
     [''sanity'', ''try secure renegotiation with GET after 2nd CH'', ''sanity'']
   \<and> map fst (main_attempts (default_settings\<lparr>num_limit := Some 1\<rparr>) (\<lambda>c. 1)
       (\<lambda>w c. (Returned, w)) ()) =
     [''sanity'', ''try secure renegotiation with incomplete GET'', ''sanity'']
   \<and> map_option (map_sum id (\<lambda>(status, s). (good s, bad s, failed s)))
     (main (default_settings\<lparr>num_limit := Some 1\<rparr>) (\<lambda>c. 0)
        (\<lambda>w c. (if w = 0 then Raised ''AssertionError'' else Returned, w + 1)) (\<lambda>f. []) (0::nat)) =
     Some (Inr (2, 1, [''sanity'']))
   \<and> map_option (map_sum id (\<lambda>(status, s). (good s, bad s, failed s)))
     (main (default_settings\<lparr>num_limit := Some 1\<rparr>) (\<lambda>c. 0)
        (\<lambda>w c. (if w = 0 then Raised ''socket.timeout'' else Returned, w + 1)) (\<lambda>f. []) (0::nat)) =
     Some (Inr (2, 1, [''sanity'']))"
  by (simp add: main_def eval_defs initial_state_def summary_def exit_status_def)

text \<open>
  C8, amended: when \<^verbatim>\<open>main\<close> reaches its end, the result data, which start from
  zero and the empty list in every run, are the counter \<^verbatim>\<open>good\<close>, the number of
  attempts that returned; the counter \<^verbatim>\<open>bad\<close>, the number of attempts that
  raised; and the list \<^verbatim>\<open>failed\<close>, the names of the attempts that raised, in the
  order of the attempts. The names of the conversations that passed are not kept, and
  the exception context of a failure is printed, not kept.
\<close>

theorem result_data:
  assumes "main cfg rnd run report w = Some (Inr (status, s))"
  shows "good s = int (length (filter (\<lambda>a. is_returned (snd a)) (main_attempts cfg rnd run w)))
     \<and> bad s = int (length (filter (\<lambda>a. is_raised (snd a)) (main_attempts cfg rnd run w)))
     \<and> failed s = map fst (filter (\<lambda>a. is_raised (snd a)) (main_attempts cfg rnd run w))
     \<and> (\<forall>n tb. (n, Raised tb) \<in> set (main_attempts cfg rnd run w) \<longrightarrow> tb \<in> set (stdout s))"
  using main_result [OF assms] by simp

theorem result_data_witness:
  "\<exists>status s. main (default_settings\<lparr>num_limit := Some 1\<rparr>) (\<lambda>c. 0)
        (\<lambda>w c. (if w = 0 then Raised ''AssertionError'' else Returned, w + 1)) (\<lambda>f. []) (0::nat) =
       Some (Inr (status, s))
     \<and> good s = 2 \<and> bad s = 1 \<and> failed s = [''sanity''] \<and> ''AssertionError'' \<in> set (stdout s)"
proof -
  let ?cfg = "default_settings\<lparr>num_limit := Some 1\<rparr>"
  let ?run = "\<lambda>(w::nat) (c::conversation). (if w = 0 then Raised ''AssertionError'' else Returned, w + 1)"
  have "\<exists>status s. main ?cfg (\<lambda>c. 0) ?run (\<lambda>f. []) 0 = Some (Inr (status, s))"
    by (rule main_total) (simp_all add: default_settings_def)
  then obtain status s where m: "main ?cfg (\<lambda>c. 0) ?run (\<lambda>f. []) 0 = Some (Inr (status, s))"
    by blast
  have a: "main_attempts ?cfg (\<lambda>c. 0) ?run 0 =
     [(''sanity'', Raised ''AssertionError''),
      (''try secure renegotiation with GET after 2nd CH'', Returned),
      (''sanity'', Returned)]"
    by (simp add: eval_defs)
  from result_data [OF m] have "good s = 2 \<and> bad s = 1 \<and> failed s = [''sanity'']
      \<and> ''AssertionError'' \<in> set (stdout s)"
    unfolding a by simp
  then show ?thesis using m by blast
qed



text \<open>
  C10: from any state and on any list of tests, when the loop ends every test that was
  not skipped has been attempted and has added one to exactly one of the counters:
  \<^verbatim>\<open>good\<close> has grown by the number of attempts that returned, \<^verbatim>\<open>bad\<close> by the
  number of attempts that raised, and the two together by the number of attempts. The
  list \<^verbatim>\<open>failed\<close> has grown by the names of the attempts that raised, one entry for
  each, so that it has grown by as many entries as \<^verbatim>\<open>bad\<close> has grown.
\<close>

theorem loop_counters:
  assumes "run_tests run run_only excl tests w s = Inr (w', s')"
  shows "good s' + bad s' = good s + bad s + int (length (executed run_only excl tests))
     \<and> length (attempts run w (executed run_only excl tests)) = length (executed run_only excl tests)
     \<and> good s' = good s +
         int (length (filter (\<lambda>a. is_returned (snd a)) (attempts run w (executed run_only excl tests))))
     \<and> bad s' = bad s +
         int (length (filter (\<lambda>a. is_raised (snd a)) (attempts run w (executed run_only excl tests))))
     \<and> failed s' = failed s @
         map fst (filter (\<lambda>a. is_raised (snd a)) (attempts run w (executed run_only excl tests)))
     \<and> int (length (failed s')) = int (length (failed s)) + (bad s' - bad s)"
proof -
  let ?as = "attempts run w (executed run_only excl tests)"
  have r: "run_tests run None {} (executed run_only excl tests) w s = Inr (w', s')"
    using assms by (simp add: run_tests_executed [of run run_only])
  note f = run_all_state [OF r]
  have l: "length ?as = length (executed run_only excl tests)"
    using f by (metis length_map)
  have "length (filter (\<lambda>a. is_returned (snd a)) ?as) + length (filter (\<lambda>a. is_raised (snd a)) ?as)
      = length ?as"
    using f by (intro outcome_lengths) simp
  then have "int (length (filter (\<lambda>a. is_returned (snd a)) ?as))
      + int (length (filter (\<lambda>a. is_raised (snd a)) ?as)) = int (length (executed run_only excl tests))"
    using l by linarith
  then show ?thesis using f l by simp
qed

theorem loop_counters_witness:
  "\<exists>w' s'. run_tests (\<lambda>w c. (if w = (1::nat) then Raised ''AssertionError'' else Returned, w + 1))
       None {''sanity''} (build_conversations ''localhost'' 4433 False) 0 initial_state = Inr (w', s')
     \<and> good s' = 3 \<and> bad s' = 1
     \<and> failed s' = [''try secure renegotiation with incomplete GET'']"
proof -
  let ?run = "\<lambda>(w::nat) (c::conversation). (if w = 1 then Raised ''AssertionError'' else Returned, w + 1)"
  let ?ts = "build_conversations ''localhost'' 4433 False"
  have "\<exists>w' s'. run_tests ?run None {} (executed None {''sanity''} ?ts) 0 initial_state = Inr (w', s')"
    by (rule run_all_total) simp
  moreover have "run_tests ?run None {''sanity''} ?ts 0 initial_state =
      run_tests ?run None {} (executed None {''sanity''} ?ts) 0 initial_state"
    by (rule run_tests_executed)
  ultimately obtain w' s' where r: "run_tests ?run None {''sanity''} ?ts 0 initial_state = Inr (w', s')"
    by auto
  have e: "executed None {''sanity''} ?ts = regular_tests ?ts"
    by (simp add: executed_def skipped_def regular_tests_def build_conversations_items)
  have a: "attempts ?run 0 (regular_tests ?ts) =
     [(''try secure renegotiation with GET after 2nd CH'', Returned),
      (''try secure renegotiation with incomplete GET'', Raised ''AssertionError''),
      (''try insecure (legacy) renegotiation with GET after 2nd CH'', Returned),
      (''try insecure (legacy) renegotiation with incomplete GET'', Returned)]"
    by (simp add: regular_tests_build)
  from loop_counters [OF r] have "good s' = 3 \<and> bad s' = 1
     \<and> failed s' = [''try secure renegotiation with incomplete GET'']"
    unfolding e a by (simp add: initial_state_def)
  then show ?thesis using r by blast
qed

end
